theory Spec2Isabelle
  imports Main "HOL-Library.Word"
begin

section \<open>The alias converter of the type conversion pipeline\<close>

text \<open>
  A shallow embedding of \<^verbatim>\<open>src/lib/converter/types/alias.ts\<close>: the class
  \<^verbatim>\<open>AliasConverter\<close> with its two methods \<^verbatim>\<open>supportsNode\<close> and \<^verbatim>\<open>convertNode\<close>.
  The file imports the compiler's syntax tree, the \<^verbatim>\<open>Context\<close>, the owning \<^verbatim>\<open>Converter\<close>
  and the \<^verbatim>\<open>ReferenceType\<close> model; of these only what the two methods touch is modelled,
  and every method of theirs that the two methods call is a parameter.
\<close>

subsection \<open>Strings\<close>

text \<open>
  A string of the source language is a sequence of 16-bit code units; equality of strings
  (\<^verbatim>\<open>!==\<close>) is equality of these sequences.
\<close>

type_synonym jschar = "16 word"
type_synonym jsstring = "jschar list"

text \<open>The code units of an ASCII literal, for writing concrete names.\<close>

definition codeUnits :: "string \<Rightarrow> jsstring" where
  "codeUnits s = map of_char s"

definition DOT :: jschar where
  "DOT = 0x2E"

definition QUOTE :: jschar where
  "QUOTE = 0x22"

text \<open>
  The dot of a regular expression matches every code unit but the four line terminators
  (line feed, carriage return, U+2028, U+2029).
\<close>

definition isLineTerminator :: "jschar \<Rightarrow> bool" where
  "isLineTerminator c = (c = 0x0A \<or> c = 0x0D \<or> c = 0x2028 \<or> c = 0x2029)"

text \<open>
  \<^verbatim>\<open>s.split('.')\<close>: the pieces between the separators, in order. The empty string gives
  one empty piece.
\<close>

fun split :: "'a \<Rightarrow> 'a list \<Rightarrow> 'a list list" where
  "split sep [] = [[]]"
| "split sep (c # cs) =
     (if c = sep then [] # split sep cs
      else (case split sep cs of [] \<Rightarrow> [[c]] | w # ws \<Rightarrow> (c # w) # ws))"

text \<open>\<^verbatim>\<open>a.join('.')\<close>: the elements with the separator between neighbours.\<close>

fun join :: "'a \<Rightarrow> 'a list list \<Rightarrow> 'a list" where
  "join sep [] = []"
| "join sep [x] = x"
| "join sep (x # y # ys) = x @ sep # join sep (y # ys)"

text \<open>
  \<^verbatim>\<open>a.slice(start)\<close> with one argument: a negative start counts from the end and is
  clamped at the first element, a start beyond the end gives the empty array.
\<close>

definition slice :: "int \<Rightarrow> 'a list \<Rightarrow> 'a list" where
  "slice start xs =
     (let len = int (length xs);
          k = (if start < 0 then max (len + start) 0 else min start len)
      in drop (nat k) xs)"

text \<open>
  \<^verbatim>\<open>fqn.replace(/".*"\./, '')\<close>: the pattern has no anchor and no global flag, and its
  star is greedy. The matcher tries the start positions from left to right; at a double
  quote it lets \<^verbatim>\<open>.*\<close> take as many code units as it can and backtracks until a double
  quote and a dot follow. \<open>matchRest\<close> is the part of the pattern after the opening quote:
  it returns what follows the match. The first match is replaced by the empty string, a
  string without a match is returned as it is.
\<close>

fun matchRest :: "jsstring \<Rightarrow> jsstring option" where
  "matchRest [] = None"
| "matchRest (c # cs) =
     (case (if isLineTerminator c then None else matchRest cs) of
        Some r \<Rightarrow> Some r
      | None \<Rightarrow>
          (case cs of
             [] \<Rightarrow> None
           | d # r \<Rightarrow> if c = QUOTE \<and> d = DOT then Some r else None))"

fun replaceQuoted :: "jsstring \<Rightarrow> jsstring" where
  "replaceQuoted [] = []"
| "replaceQuoted (c # cs) =
     (if c = QUOTE
      then (case matchRest cs of Some r \<Rightarrow> r | None \<Rightarrow> c # replaceQuoted cs)
      else c # replaceQuoted cs)"

subsection \<open>Syntax nodes, types and the context\<close>

text \<open>
  An entity name is an identifier or a qualified name \<^verbatim>\<open>left.right\<close> whose right part is
  an identifier. Every node carries the source text it spans (\<^verbatim>\<open>getText()\<close>); an
  identifier also carries its position, which is what tells two occurrences of one name
  apart when the checker looks a symbol up.
\<close>

datatype Identifier = Identifier (pos: nat) (sourceText: jsstring)

datatype EntityName =
    IdentifierName Identifier
  | QualifiedName (sourceText: jsstring) (left: EntityName) (right: Identifier)

fun getText :: "EntityName \<Rightarrow> jsstring" where
  "getText (IdentifierName i) = Identifier.sourceText i"
| "getText (QualifiedName t l r) = t"

text \<open>
  The result of the conversion. \<open>typeArguments\<close> is \<open>None\<close> while the field has not been
  assigned.
\<close>

record 't ReferenceType =
  name :: jsstring
  symbolFullyQualifiedName :: jsstring
  typeArguments :: "'t list option"

text \<open>
  A type reference node: its name and its type argument nodes, either of which may be
  missing. \<open>'n\<close> is the type of type nodes.
\<close>

record 'n TypeReferenceNode =
  typeName :: "EntityName option"
  typeArguments :: "'n list option"

text \<open>A resolved type: of its fields only the symbol is read. \<open>'s\<close> is the type of symbols.\<close>

record 's Type =
  symbol :: "'s option"

text \<open>
  The methods of the context that the converter calls. The three lookups answer from the
  checker and do not touch the state of the context; \<open>saveRemainingSymbolReflection\<close>
  changes it. \<open>'q\<close> is that state: the queue of symbols still to be reflected and
  whatever else the context holds.
\<close>

record ('s, 'q) Context =
  getSymbolAtLocation :: "Identifier \<Rightarrow> 's option"
  resolveAliasedSymbol :: "'s option \<Rightarrow> 's option"
  getFullyQualifiedName :: "'s \<Rightarrow> jsstring"
  saveRemainingSymbolReflection :: "jsstring \<Rightarrow> 's \<Rightarrow> 'q \<Rightarrow> 'q"

text \<open>
  The owner of the component: \<^verbatim>\<open>convertTypes(context, nodes)\<close> converts a sequence of
  type nodes and may change the state of the context it is given.
\<close>

record ('q, 'n, 't) Converter =
  convertTypes :: "'q \<Rightarrow> 'n list \<Rightarrow> 't list \<times> 'q"

datatype error = TypeError

subsection \<open>The support predicate\<close>

text \<open>
  Lines 38 to 51 of \<^verbatim>\<open>supportsNode\<close>, as a function of the two arrays of segments.
\<close>

definition supportsNames :: "jsstring list \<Rightarrow> jsstring list \<Rightarrow> bool" where
  "supportsNames symbolName nodeName =
     (if length symbolName = 0 then False
      else if length nodeName = 0 then False
      else
        let common = min (length symbolName) (length nodeName);
            symbolName' = slice (- int common) symbolName;
            nodeName' = slice (- int common) nodeName
        in join DOT nodeName' \<noteq> join DOT symbolName')"

text \<open>
  \<^verbatim>\<open>supportsNode(context, node, type)\<close>. The second component of the result is the state
  of the context after the call.
\<close>

definition supportsNode ::
  "('s, 'q) Context \<Rightarrow> 'q \<Rightarrow> 'n TypeReferenceNode option \<Rightarrow> 's Type option \<Rightarrow> bool \<times> 'q" where
  "supportsNode context q node type =
     (case type of
        None \<Rightarrow> (False, q)
      | Some t \<Rightarrow>
     (case node of
        None \<Rightarrow> (False, q)
      | Some n \<Rightarrow>
     (case typeName n of
        None \<Rightarrow> (False, q)
      | Some tn \<Rightarrow>
     (case symbol t of
        None \<Rightarrow> (True, q)
      | Some s \<Rightarrow>
          let fqn = getFullyQualifiedName context s;
              symbolName = split DOT (replaceQuoted fqn);
              nodeName = split DOT (getText tn)
          in (supportsNames symbolName nodeName, q)))))"

subsection \<open>The conversion\<close>

text \<open>
  \<^verbatim>\<open>convertNode(context, node)\<close>. \<open>owner\<close> is \<^verbatim>\<open>this.owner\<close> and
  \<open>SYMBOL_FQN_RESOLVE_BY_NAME\<close> the constant of that name of the class \<^verbatim>\<open>ReferenceType\<close>.
  The method does not test its node: reading \<^verbatim>\<open>typeName\<close> of a missing node, or the text
  of a missing name, raises a type error. The test \<^verbatim>\<open>ts.isQualifiedName\<close> is the case
  distinction on the name.
\<close>

definition convertNode ::
  "('q, 'n, 't) Converter \<Rightarrow> jsstring \<Rightarrow> ('s, 'q) Context \<Rightarrow> 'q \<Rightarrow>
     'n TypeReferenceNode option \<Rightarrow> error + 't ReferenceType \<times> 'q" where
  "convertNode owner SYMBOL_FQN_RESOLVE_BY_NAME context q node =
     (case node of
        None \<Rightarrow> Inl TypeError
      | Some n \<Rightarrow>
     (case typeName n of
        None \<Rightarrow> Inl TypeError
      | Some tn \<Rightarrow>
          let name = getText tn;
              identifier = (case tn of QualifiedName t l r \<Rightarrow> r | IdentifierName i \<Rightarrow> i);
              symbol = getSymbolAtLocation context identifier;
              resolved = resolveAliasedSymbol context symbol;
              FQN = (case resolved of
                       Some r \<Rightarrow> getFullyQualifiedName context r
                     | None \<Rightarrow> SYMBOL_FQN_RESOLVE_BY_NAME);
              result = \<lparr>name = name, symbolFullyQualifiedName = FQN,
                        ReferenceType.typeArguments = None\<rparr>;
              q1 = (case resolved of
                      Some r \<Rightarrow> saveRemainingSymbolReflection context FQN r q
                    | None \<Rightarrow> q)
          in (case TypeReferenceNode.typeArguments n of
                None \<Rightarrow> Inr (result, q1)
              | Some args \<Rightarrow>
                  let (converted, q2) = convertTypes owner q1 args
                  in Inr (result\<lparr>ReferenceType.typeArguments := Some converted\<rparr>, q2))))"

text \<open>
  The registry calls the method through the interface \<^verbatim>\<open>TypeNodeConverter\<close>, with the
  resolved type as a third argument; the method declares two parameters, so the third
  argument is dropped.
\<close>

definition convertNode_call ::
  "('q, 'n, 't) Converter \<Rightarrow> jsstring \<Rightarrow> ('s, 'q) Context \<Rightarrow> 'q \<Rightarrow>
     'n TypeReferenceNode option \<Rightarrow> 's Type option \<Rightarrow> error + 't ReferenceType \<times> 'q" where
  "convertNode_call owner SYMBOL_FQN_RESOLVE_BY_NAME context q node type =
     convertNode owner SYMBOL_FQN_RESOLVE_BY_NAME context q node"

subsection \<open>Notions of the specification\<close>

text \<open>The trailing \<open>k\<close> segments of a qualified name: its last \<open>k\<close> elements, in order.\<close>

definition trailing :: "nat \<Rightarrow> 'a list \<Rightarrow> 'a list" where
  "trailing k xs = rev (take k (rev xs))"

text \<open>
  Stripping the leading quoted segment and nothing else: a name that begins with a double
  quote loses the text up to the next double quote and the dot behind it; every other
  name is kept as it is.
\<close>

fun afterQuote :: "jsstring \<Rightarrow> jsstring option" where
  "afterQuote [] = None"
| "afterQuote (c # cs) = (if c = QUOTE then Some cs else afterQuote cs)"

definition stripLeadingQuoted :: "jsstring \<Rightarrow> jsstring" where
  "stripLeadingQuoted fqn =
     (case fqn of
        [] \<Rightarrow> []
      | c # cs \<Rightarrow>
          if c = QUOTE
          then (case afterQuote cs of
                  Some (d # r) \<Rightarrow> if d = DOT then r else fqn
                | _ \<Rightarrow> fqn)
          else fqn)"

text \<open>
  A double quote directly followed by a dot lies ahead, before the first line terminator.
\<close>

fun quoteDotAhead :: "jsstring \<Rightarrow> bool" where
  "quoteDotAhead [] = False"
| "quoteDotAhead [c] = False"
| "quoteDotAhead (c # d # cs) =
     (\<not> isLineTerminator c \<and> ((c = QUOTE \<and> d = DOT) \<or> quoteDotAhead (d # cs)))"

text \<open>
  The identifier that line 74 of \<^verbatim>\<open>convertNode\<close> hands to the symbol lookup, and the
  resolution target that lines 75 to 77 compute from an identifier.
\<close>

definition lookupIdentifier :: "EntityName \<Rightarrow> Identifier" where
  "lookupIdentifier tn = (case tn of QualifiedName t l r \<Rightarrow> r | IdentifierName i \<Rightarrow> i)"

definition resolutionTarget :: "('s, 'q) Context \<Rightarrow> jsstring \<Rightarrow> Identifier \<Rightarrow> jsstring" where
  "resolutionTarget context sentinel identifier =
     (case resolveAliasedSymbol context (getSymbolAtLocation context identifier) of
        Some target \<Rightarrow> getFullyQualifiedName context target
      | None \<Rightarrow> sentinel)"

subsection \<open>A concrete context\<close>

text \<open>
  A small program for trying the methods out: a class \<^verbatim>\<open>RealClass\<close> in a namespace
  \<^verbatim>\<open>NS\<close> of a module, and an alias \<^verbatim>\<open>Alias\<close> of it. Symbol 1 is the alias, symbol 2 the
  class. The identifier at position 4 is a use of the alias, the one at position 9 a use
  of the class; no other position has a symbol. The queue is a list of pairs that keeps
  the first entry of every name.
\<close>

type_synonym exampleQueue = "(jsstring \<times> nat) list"

definition exampleContext :: "(nat, exampleQueue) Context" where
  "exampleContext =
     \<lparr>getSymbolAtLocation =
        (\<lambda>i. if pos i = 4 then Some 1 else if pos i = 9 then Some 2 else None),
      resolveAliasedSymbol = (\<lambda>s. if s = Some 1 then Some 2 else s),
      getFullyQualifiedName =
        (\<lambda>s. if s = 2 then codeUnits ''\"mod\".NS.RealClass'' else codeUnits ''\"mod\".Alias''),
      saveRemainingSymbolReflection =
        (\<lambda>fqn s q. if map_of q fqn = None then q @ [(fqn, s)] else q)\<rparr>"

definition exampleOwner :: "(exampleQueue, nat, nat) Converter" where
  "exampleOwner = \<lparr>convertTypes = (\<lambda>q nodes. (map Suc nodes, q))\<rparr>"

definition exampleSentinel :: jsstring where
  "exampleSentinel = codeUnits ''?''"

definition aliasName :: EntityName where
  "aliasName = IdentifierName (Identifier 4 (codeUnits ''Alias''))"

definition qualifiedName :: EntityName where
  "qualifiedName =
     QualifiedName (codeUnits ''NS.RealClass'') (IdentifierName (Identifier 6 (codeUnits ''NS'')))
       (Identifier 9 (codeUnits ''RealClass''))"

definition ambientName :: EntityName where
  "ambientName = IdentifierName (Identifier 30 (codeUnits ''Ambient''))"

definition aliasNode :: "nat TypeReferenceNode" where
  "aliasNode = \<lparr>typeName = Some aliasName, typeArguments = Some [10, 20]\<rparr>"

definition qualifiedNode :: "nat TypeReferenceNode" where
  "qualifiedNode = \<lparr>typeName = Some qualifiedName, typeArguments = None\<rparr>"

definition ambientNode :: "nat TypeReferenceNode" where
  "ambientNode = \<lparr>typeName = Some ambientName, typeArguments = None\<rparr>"

definition namelessNode :: "nat TypeReferenceNode" where
  "namelessNode = \<lparr>typeName = None, typeArguments = None\<rparr>"

definition realClassType :: "nat Type" where
  "realClassType = \<lparr>symbol = Some 2\<rparr>"

definition primitiveType :: "nat Type" where
  "primitiveType = \<lparr>symbol = None\<rparr>"

lemmas string_defs = codeUnits_def DOT_def QUOTE_def isLineTerminator_def

section \<open>Properties\<close>

subsection \<open>Splitting and joining\<close>

lemma split_not_Nil: "split sep s \<noteq> []"
  by (induction s) (auto split: list.splits)

lemma split_sep_free: "x \<in> set (split sep s) \<Longrightarrow> sep \<notin> set x"
  by (induction s arbitrary: x) (auto split: list.splits if_splits)

lemma split_no_sep: "sep \<notin> set x \<Longrightarrow> split sep x = [x]"
  by (induction x) auto

lemma split_append_sep: "sep \<notin> set x \<Longrightarrow> split sep (x @ sep # rest) = x # split sep rest"
  by (induction x) (auto split: list.splits)

lemma split_join:
  "xs \<noteq> [] \<Longrightarrow> \<forall>x\<in>set xs. sep \<notin> set x \<Longrightarrow> split sep (join sep xs) = xs"
  by (induction sep xs rule: join.induct) (auto simp: split_no_sep split_append_sep)

lemma join_eq_iff:
  assumes "xs \<noteq> []" "ys \<noteq> []" "\<forall>x\<in>set xs. sep \<notin> set x" "\<forall>y\<in>set ys. sep \<notin> set y"
  shows "join sep xs = join sep ys \<longleftrightarrow> xs = ys"
proof
  assume "join sep xs = join sep ys"
  then have "split sep (join sep xs) = split sep (join sep ys)" by simp
  with assms show "xs = ys" by (simp add: split_join)
qed simp

lemma slice_negative: "0 < k \<Longrightarrow> slice (- int k) xs = drop (length xs - k) xs"
  by (auto simp: slice_def Let_def max_def nat_diff_distrib'
      intro: arg_cong[where f="\<lambda>n. drop n xs"])

lemma trailing_drop: "trailing k xs = drop (length xs - k) xs"
  by (simp add: trailing_def take_rev)

lemma trailing_length: "k \<le> length xs \<Longrightarrow> length (trailing k xs) = k"
  by (simp add: trailing_drop)

text \<open>
  On arrays that come from \<open>split\<close> the comparison of the joined strings is the comparison
  of the trailing segments: \<open>split\<close> gives at least one segment, so \<open>common\<close> is positive
  and \<open>slice\<close> takes the last \<open>common\<close> elements, and no segment holds a dot, so joining
  loses nothing.
\<close>

lemma supportsNames_split:
  fixes a b :: jsstring
  defines "symbolName \<equiv> split DOT a" and "nodeName \<equiv> split DOT b"
  shows "supportsNames symbolName nodeName \<longleftrightarrow>
     trailing (min (length symbolName) (length nodeName)) symbolName \<noteq>
     trailing (min (length symbolName) (length nodeName)) nodeName"
proof -
  define k where "k = min (length symbolName) (length nodeName)"
  have ne: "symbolName \<noteq> []" "nodeName \<noteq> []"
    by (simp_all add: symbolName_def nodeName_def split_not_Nil)
  then have k: "0 < k" "k \<le> length symbolName" "k \<le> length nodeName"
    by (simp_all add: k_def)
  then have tne: "trailing k symbolName \<noteq> []" "trailing k nodeName \<noteq> []"
    using trailing_length[of k symbolName] trailing_length[of k nodeName] by auto
  have free: "\<forall>x\<in>set (trailing k symbolName). DOT \<notin> set x"
    "\<forall>x\<in>set (trailing k nodeName). DOT \<notin> set x"
    using split_sep_free[of _ DOT a] split_sep_free[of _ DOT b]
    by (auto simp: trailing_drop symbolName_def nodeName_def dest: in_set_dropD)
  have "supportsNames symbolName nodeName \<longleftrightarrow>
      join DOT (trailing k nodeName) \<noteq> join DOT (trailing k symbolName)"
    using ne k(1) by (simp add: supportsNames_def Let_def slice_negative trailing_drop k_def)
  also have "\<dots> \<longleftrightarrow> trailing k nodeName \<noteq> trailing k symbolName"
    using join_eq_iff[OF tne(2) tne(1) free(2) free(1)] by simp
  finally show ?thesis unfolding k_def by auto
qed

subsection \<open>The support predicate\<close>

text \<open>
  C1. For a node with a name and a type with a symbol, \<open>supportsNode\<close> answers true exactly
  when the trailing \<open>k\<close> segments of the symbol's name (its fully-qualified name after the
  replacement, split at the dots) and of the surface name (the text of the node's name,
  split at the dots) differ, where \<open>k\<close> is the smaller of the two numbers of segments. When
  the trailing segments are equal it answers false.
\<close>

theorem supportsNode_iff_trailing_differ:
  assumes "typeName n = Some tn" and "symbol t = Some s"
  shows "fst (supportsNode context q (Some n) (Some t)) \<longleftrightarrow>
     (let symbolName = split DOT (replaceQuoted (getFullyQualifiedName context s));
          nodeName = split DOT (getText tn);
          k = min (length symbolName) (length nodeName)
      in trailing k symbolName \<noteq> trailing k nodeName)"
  using assms by (simp add: supportsNode_def Let_def supportsNames_split)

text \<open>
  The qualified use \<^verbatim>\<open>NS.RealClass\<close> of the class is not an alias, the use \<^verbatim>\<open>Alias\<close> is.
\<close>

theorem supportsNode_iff_trailing_differ_witness:
  "typeName qualifiedNode = Some qualifiedName \<and>
   symbol realClassType = Some 2 \<and>
   \<not> fst (supportsNode exampleContext [] (Some qualifiedNode) (Some realClassType)) \<and>
   typeName aliasNode = Some aliasName \<and>
   fst (supportsNode exampleContext [] (Some aliasNode) (Some realClassType))"
proof -
  have a: "typeName qualifiedNode = Some qualifiedName"
    by (simp add: qualifiedNode_def)
  have b: "symbol realClassType = Some 2"
    by (simp add: realClassType_def)
  have c: "typeName aliasNode = Some aliasName"
    by (simp add: aliasNode_def)
  have d: "\<not> fst (supportsNode exampleContext [] (Some qualifiedNode) (Some realClassType))"
    unfolding supportsNode_iff_trailing_differ [OF a b]
    by (simp add: exampleContext_def qualifiedName_def trailing_def string_defs)
  have e: "fst (supportsNode exampleContext [] (Some aliasNode) (Some realClassType))"
    unfolding supportsNode_iff_trailing_differ [OF c b]
    by (simp add: exampleContext_def aliasName_def trailing_def string_defs)
  from a b c d e show ?thesis by blast
qed

text \<open>
  C3. For a node with a name and a type that is present but has no symbol, \<open>supportsNode\<close>
  answers true, whatever the name is.
\<close>

theorem supportsNode_without_symbol:
  assumes "typeName n = Some tn" and "symbol t = None"
  shows "fst (supportsNode context q (Some n) (Some t))"
  using assms by (simp add: supportsNode_def)

theorem supportsNode_without_symbol_witness:
  "typeName aliasNode = Some aliasName \<and> symbol primitiveType = None \<and>
   fst (supportsNode exampleContext [] (Some aliasNode) (Some primitiveType))"
proof -
  have a: "typeName aliasNode = Some aliasName" by (simp add: aliasNode_def)
  have b: "symbol primitiveType = None" by (simp add: primitiveType_def)
  from a b supportsNode_without_symbol [OF a b, of exampleContext "[]"]
  show ?thesis by simp
qed

text \<open>
  C5. When the node is missing, or has no name, or the type is missing, \<open>supportsNode\<close>
  answers false. It is a total function: no input makes it raise.
\<close>

theorem supportsNode_malformed:
  assumes "node = None \<or> (\<exists>n. node = Some n \<and> typeName n = None) \<or> type = None"
  shows "supportsNode context q node type = (False, q)"
  using assms by (auto simp: supportsNode_def split: option.splits)

theorem supportsNode_malformed_witness:
  "supportsNode exampleContext [] None (Some realClassType) = (False, []) \<and>
   typeName namelessNode = None \<and>
   supportsNode exampleContext [] (Some namelessNode) (Some realClassType) = (False, []) \<and>
   supportsNode exampleContext [] (Some aliasNode) None = (False, [])"
proof -
  have a: "typeName namelessNode = None" by (simp add: namelessNode_def)
  have "supportsNode exampleContext [] None (Some realClassType) = (False, [])"
    by (rule supportsNode_malformed) simp
  moreover have
    "supportsNode exampleContext [] (Some namelessNode) (Some realClassType) = (False, [])"
    by (rule supportsNode_malformed) (simp add: a)
  moreover have "supportsNode exampleContext [] (Some aliasNode) None = (False, [])"
    by (rule supportsNode_malformed) simp
  ultimately show ?thesis using a by blast
qed

text \<open>
  C7. When either array of segments is empty, the comparison of lines 38 to 51 answers
  false. Inside \<open>supportsNode\<close> both arrays come from \<open>split\<close>, which gives at least one
  segment (\<open>split_not_Nil\<close>), so there the two tests never fire.
\<close>

theorem supportsNames_empty:
  assumes "symbolName = [] \<or> nodeName = []"
  shows "\<not> supportsNames symbolName nodeName"
  using assms by (auto simp: supportsNames_def)

theorem supportsNames_empty_witness:
  "\<not> supportsNames [] [codeUnits ''Alias''] \<and> \<not> supportsNames [codeUnits ''RealClass''] []"
proof -
  have "\<not> supportsNames [] [codeUnits ''Alias'']"
    by (rule supportsNames_empty) simp
  moreover have "\<not> supportsNames [codeUnits ''RealClass''] []"
    by (rule supportsNames_empty) simp
  ultimately show ?thesis by blast
qed

subsection \<open>The replacement\<close>

text \<open>
  \<open>matchRest\<close> fails exactly when no double quote followed by a dot lies ahead on the
  line, and it is greedy: with no line terminator in \<open>mid\<close> and no further match in
  \<open>post\<close>, it runs to the last double quote and dot.
\<close>

lemma QUOTE_not_terminator: "\<not> isLineTerminator QUOTE"
  by (simp add: QUOTE_def isLineTerminator_def)

lemma DOT_not_terminator: "\<not> isLineTerminator DOT"
  by (simp add: DOT_def isLineTerminator_def)

lemma DOT_not_QUOTE: "DOT \<noteq> QUOTE"
  by (simp add: QUOTE_def DOT_def)

lemma backtrack_step:
  "(case (if L then None else m) of
      Some x \<Rightarrow> Some x
    | None \<Rightarrow> (case d # r of [] \<Rightarrow> None | d' # r' \<Rightarrow> if C \<and> d' = e then Some r' else None)) =
   (if \<not> L \<and> m \<noteq> None then m else if C \<and> d = e then Some r else None)"
  by (cases m) auto

lemma matchRest_Cons2:
  "matchRest (c # d # r) =
     (if \<not> isLineTerminator c \<and> matchRest (d # r) \<noteq> None then matchRest (d # r)
      else if c = QUOTE \<and> d = DOT then Some r else None)"
proof -
  have "matchRest (c # d # r) =
      (case (if isLineTerminator c then None else matchRest (d # r)) of
         Some x \<Rightarrow> Some x
       | None \<Rightarrow>
           (case d # r of
              [] \<Rightarrow> None
            | d' # r' \<Rightarrow> if c = QUOTE \<and> d' = DOT then Some r' else None))"
    by (rule matchRest.simps(2))
  also have "\<dots> =
      (if \<not> isLineTerminator c \<and> matchRest (d # r) \<noteq> None then matchRest (d # r)
       else if c = QUOTE \<and> d = DOT then Some r else None)"
    by (rule backtrack_step)
  finally show ?thesis .
qed

lemma matchRest_None_iff: "matchRest s = None \<longleftrightarrow> \<not> quoteDotAhead s"
proof (induction s rule: quoteDotAhead.induct)
  case 1
  show ?case by simp
next
  case (2 c)
  show ?case by simp
next
  case (3 c d cs)
  show ?case
    unfolding matchRest_Cons2 quoteDotAhead.simps using 3 QUOTE_not_terminator
    by auto
qed

lemma matchRest_greedy:
  "list_all (\<lambda>c. \<not> isLineTerminator c) mid \<Longrightarrow> matchRest post = None \<Longrightarrow>
     matchRest (mid @ QUOTE # DOT # post) = Some post"
proof (induction mid)
  case Nil
  have "matchRest (DOT # post) = None"
    using Nil(2) DOT_not_QUOTE by (cases post) (simp_all add: DOT_not_terminator)
  then show ?case
    using QUOTE_not_terminator by (simp del: matchRest.simps add: matchRest_Cons2)
next
  case (Cons c mid)
  then have "matchRest (mid @ QUOTE # DOT # post) = Some post" by simp
  moreover have "\<not> isLineTerminator c" using Cons.prems(1) by simp
  ultimately show ?case by simp
qed

lemma replaceQuoted_no_quote: "QUOTE \<notin> set s \<Longrightarrow> replaceQuoted s = s"
  by (induction s) auto

lemma replaceQuoted_prefix:
  "QUOTE \<notin> set pre \<Longrightarrow> replaceQuoted (pre @ s) = pre @ replaceQuoted s"
  by (induction pre) auto

lemma quoteDotAhead_no_quote: "QUOTE \<notin> set s \<Longrightarrow> \<not> quoteDotAhead s"
  by (induction s rule: quoteDotAhead.induct) auto

lemma stripLeadingQuoted_leading:
  "QUOTE \<notin> set m \<Longrightarrow> stripLeadingQuoted (QUOTE # m @ QUOTE # DOT # rest) = rest"
proof -
  assume "QUOTE \<notin> set m"
  then have "afterQuote (m @ QUOTE # DOT # rest) = Some (DOT # rest)"
    by (induction m) auto
  then show ?thesis by (simp add: stripLeadingQuoted_def)
qed

text \<open>
  C6, as stated, fails. In \<^verbatim>\<open>A."b".C\<close> the quoted segment is not leading, and the code
  strips it: the segments are \<^verbatim>\<open>A\<close> and \<^verbatim>\<open>C\<close>. In \<^verbatim>\<open>"a".X."b".Y\<close> the code strips
  everything up to the second quoted segment, the \<^verbatim>\<open>X\<close> between the two included, and
  leaves the one segment \<^verbatim>\<open>Y\<close>. Stripping the leading quoted segment and nothing else
  would give \<^verbatim>\<open>A\<close>, \<^verbatim>\<open>"b"\<close>, \<^verbatim>\<open>C\<close> and \<^verbatim>\<open>X\<close>, \<^verbatim>\<open>"b"\<close>, \<^verbatim>\<open>Y\<close>.
\<close>

theorem replaceQuoted_counterexample:
  "split DOT (replaceQuoted (codeUnits ''A.\"b\".C'')) = [codeUnits ''A'', codeUnits ''C''] \<and>
   split DOT (stripLeadingQuoted (codeUnits ''A.\"b\".C'')) =
     [codeUnits ''A'', codeUnits ''\"b\"'', codeUnits ''C''] \<and>
   split DOT (replaceQuoted (codeUnits ''\"a\".X.\"b\".Y'')) = [codeUnits ''Y''] \<and>
   split DOT (stripLeadingQuoted (codeUnits ''\"a\".X.\"b\".Y'')) =
     [codeUnits ''X'', codeUnits ''\"b\"'', codeUnits ''Y''] \<and>
   replaceQuoted (codeUnits ''A.\"b\".C'') \<noteq> stripLeadingQuoted (codeUnits ''A.\"b\".C'') \<and>
   replaceQuoted (codeUnits ''\"a\".X.\"b\".Y'') \<noteq>
     stripLeadingQuoted (codeUnits ''\"a\".X.\"b\".Y'')"
  by (simp add: stripLeadingQuoted_def string_defs)

text \<open>
  C6, amended. The replacement deletes the first match of the pattern, which has no anchor
  and a greedy star: in a name \<^verbatim>\<open>pre"mid".post\<close> where \<open>pre\<close> holds no double quote,
  \<open>mid\<close> no line terminator, and \<open>post\<close> no double quote followed by a dot before its
  first line terminator, everything from the first double quote to the last double quote
  and the dot behind it is removed, and \<open>pre\<close> followed by \<open>post\<close> is what is split into
  segments. With an empty \<open>pre\<close> and no double quote in \<open>mid\<close> that is the leading quoted
  segment (\<open>stripLeadingQuoted_leading\<close>); a name without a double quote is left as it
  is (\<open>replaceQuoted_no_quote\<close>).
\<close>

theorem replaceQuoted_first_to_last:
  assumes "QUOTE \<notin> set pre" and "list_all (\<lambda>c. \<not> isLineTerminator c) mid"
    and "\<not> quoteDotAhead post"
  shows "replaceQuoted (pre @ QUOTE # mid @ QUOTE # DOT # post) = pre @ post"
proof -
  have "matchRest (mid @ QUOTE # DOT # post) = Some post"
    using assms(2,3) by (simp add: matchRest_greedy matchRest_None_iff)
  then have "replaceQuoted (QUOTE # mid @ QUOTE # DOT # post) = post"
    by simp
  with assms(1) show ?thesis
    by (simp add: replaceQuoted_prefix)
qed

theorem replaceQuoted_first_to_last_witness:
  "QUOTE \<notin> set (codeUnits ''A.'') \<and>
   list_all (\<lambda>c. \<not> isLineTerminator c) (codeUnits ''b'') \<and>
   \<not> quoteDotAhead (codeUnits ''C'') \<and>
   replaceQuoted (codeUnits ''A.'' @ QUOTE # codeUnits ''b'' @ QUOTE # DOT # codeUnits ''C'') =
     codeUnits ''A.'' @ codeUnits ''C'' \<and>
   codeUnits ''A.'' @ QUOTE # codeUnits ''b'' @ QUOTE # DOT # codeUnits ''C'' =
     codeUnits ''A.\"b\".C''"
proof -
  have a: "QUOTE \<notin> set (codeUnits ''A.'')" by (simp add: string_defs)
  have b: "list_all (\<lambda>c. \<not> isLineTerminator c) (codeUnits ''b'')" by (simp add: string_defs)
  have c: "\<not> quoteDotAhead (codeUnits ''C'')" by (simp add: string_defs)
  have d: "codeUnits ''A.'' @ QUOTE # codeUnits ''b'' @ QUOTE # DOT # codeUnits ''C'' =
     codeUnits ''A.\"b\".C''"
    by (simp add: string_defs)
  from a b c d replaceQuoted_first_to_last [OF a b c] show ?thesis by blast
qed

subsection \<open>The conversion\<close>

text \<open>
  The properties of \<open>convertNode\<close> are stated for a node that is present and has a name:
  the method is called once \<open>supportsNode\<close> has answered true, which it does for such
  nodes only, and the declared type of the parameter has no other nodes. For such a node
  the method returns a result, as the next lemma says; for the others the model ends in
  \<open>Inl TypeError\<close>.
\<close>

lemma convertNode_named:
  assumes "typeName n = Some tn"
  shows "convertNode owner sentinel context q (Some n) =
     (let resolved = resolveAliasedSymbol context (getSymbolAtLocation context (lookupIdentifier tn));
          FQN = (case resolved of Some r \<Rightarrow> getFullyQualifiedName context r | None \<Rightarrow> sentinel);
          q1 = (case resolved of
                  Some r \<Rightarrow> saveRemainingSymbolReflection context FQN r q
                | None \<Rightarrow> q)
      in Inr (\<lparr>name = getText tn, symbolFullyQualifiedName = FQN,
               ReferenceType.typeArguments =
                 map_option (\<lambda>args. fst (convertTypes owner q1 args))
                   (TypeReferenceNode.typeArguments n)\<rparr>,
              (case TypeReferenceNode.typeArguments n of
                 None \<Rightarrow> q1
               | Some args \<Rightarrow> snd (convertTypes owner q1 args))))"
  using assms
  by (simp add: convertNode_def lookupIdentifier_def Let_def split: option.splits prod.splits)

text \<open>
  C2. A conversion returns a result and raises nothing. When the symbol at the lookup
  identifier resolves, through the aliases, to a target symbol, the resolution target of
  the result is the fully-qualified name of that symbol, and the pair of this name and the
  symbol is registered by \<open>saveRemainingSymbolReflection\<close>: the state handed on is the
  state after that one registration. When no target symbol is found, the resolution target
  is the sentinel and the method registers nothing: the state handed on is the state it
  was given. Handed on means: returned when the node has no type arguments, and otherwise
  given to \<open>convertTypes\<close> of the owner, whose final state is returned.
\<close>

theorem convertNode_target:
  assumes "typeName n = Some tn"
  shows "\<exists>r q'. convertNode owner sentinel context q (Some n) = Inr (r, q') \<and>
     (case resolveAliasedSymbol context (getSymbolAtLocation context (lookupIdentifier tn)) of
        Some target \<Rightarrow>
          symbolFullyQualifiedName r = getFullyQualifiedName context target \<and>
          q' = (let q1 = saveRemainingSymbolReflection context
                           (getFullyQualifiedName context target) target q
                in case TypeReferenceNode.typeArguments n of
                     None \<Rightarrow> q1
                   | Some args \<Rightarrow> snd (convertTypes owner q1 args))
      | None \<Rightarrow>
          symbolFullyQualifiedName r = sentinel \<and>
          q' = (case TypeReferenceNode.typeArguments n of
                  None \<Rightarrow> q
                | Some args \<Rightarrow> snd (convertTypes owner q args)))"
  by (simp add: convertNode_named [OF assms] Let_def split: option.splits)

theorem convertNode_target_witness:
  "typeName aliasNode = Some aliasName \<and>
   (\<exists>r. convertNode exampleOwner exampleSentinel exampleContext [] (Some aliasNode) =
          Inr (r, [(codeUnits ''\"mod\".NS.RealClass'', 2)]) \<and>
        symbolFullyQualifiedName r = codeUnits ''\"mod\".NS.RealClass'') \<and>
   typeName ambientNode = Some ambientName \<and>
   (\<exists>r. convertNode exampleOwner exampleSentinel exampleContext [] (Some ambientNode) =
          Inr (r, []) \<and>
        symbolFullyQualifiedName r = exampleSentinel)"
proof -
  have a: "typeName aliasNode = Some aliasName" by (simp add: aliasNode_def)
  have b: "typeName ambientNode = Some ambientName" by (simp add: ambientNode_def)
  have c: "\<exists>r. convertNode exampleOwner exampleSentinel exampleContext [] (Some aliasNode) =
          Inr (r, [(codeUnits ''\"mod\".NS.RealClass'', 2)]) \<and>
        symbolFullyQualifiedName r = codeUnits ''\"mod\".NS.RealClass''"
    using convertNode_target [OF a, of exampleOwner exampleSentinel exampleContext "[]"]
    by (simp add: lookupIdentifier_def aliasName_def aliasNode_def exampleContext_def
        exampleOwner_def)
  have d: "\<exists>r. convertNode exampleOwner exampleSentinel exampleContext [] (Some ambientNode) =
          Inr (r, []) \<and>
        symbolFullyQualifiedName r = exampleSentinel"
    using convertNode_target [OF b, of exampleOwner exampleSentinel exampleContext "[]"]
    by (simp add: lookupIdentifier_def ambientName_def ambientNode_def exampleContext_def
        exampleOwner_def)
  from a b c d show ?thesis by blast
qed

text \<open>
  C4. The name of the result is the text of the node's name as written, qualification
  included. The resolution target is computed from the right identifier of a qualified
  name, and from the name itself when it is an identifier. When the node has type
  arguments, the type arguments of the result are what \<open>convertTypes\<close> of the owner
  returns for them, in the state after the registration.
\<close>

theorem convertNode_fields:
  assumes "typeName n = Some tn"
  shows "\<exists>r q'. convertNode owner sentinel context q (Some n) = Inr (r, q') \<and>
     name r = getText tn \<and>
     (\<forall>t l rt. tn = QualifiedName t l rt \<longrightarrow>
        symbolFullyQualifiedName r = resolutionTarget context sentinel rt) \<and>
     (\<forall>i. tn = IdentifierName i \<longrightarrow>
        symbolFullyQualifiedName r = resolutionTarget context sentinel i) \<and>
     (\<forall>args. TypeReferenceNode.typeArguments n = Some args \<longrightarrow>
        ReferenceType.typeArguments r =
          Some (fst (convertTypes owner
            (case resolveAliasedSymbol context
                    (getSymbolAtLocation context (lookupIdentifier tn)) of
               Some target \<Rightarrow>
                 saveRemainingSymbolReflection context
                   (getFullyQualifiedName context target) target q
             | None \<Rightarrow> q) args)))"
  by (auto simp: convertNode_named [OF assms] Let_def lookupIdentifier_def resolutionTarget_def
      split: option.splits)

theorem convertNode_fields_witness:
  "typeName aliasNode = Some aliasName \<and>
   (\<exists>q'. convertNode exampleOwner exampleSentinel exampleContext [] (Some aliasNode) =
     Inr (\<lparr>name = codeUnits ''Alias'',
           symbolFullyQualifiedName = codeUnits ''\"mod\".NS.RealClass'',
           ReferenceType.typeArguments = Some [11, 21]\<rparr>, q')) \<and>
   typeName qualifiedNode = Some qualifiedName \<and>
   (\<exists>r q'. convertNode exampleOwner exampleSentinel exampleContext [] (Some qualifiedNode) =
          Inr (r, q') \<and>
      name r = codeUnits ''NS.RealClass'' \<and>
      symbolFullyQualifiedName r = codeUnits ''\"mod\".NS.RealClass'')"
proof -
  have a: "typeName aliasNode = Some aliasName" by (simp add: aliasNode_def)
  have b: "typeName qualifiedNode = Some qualifiedName" by (simp add: qualifiedNode_def)
  have c: "\<exists>q'. convertNode exampleOwner exampleSentinel exampleContext [] (Some aliasNode) =
     Inr (\<lparr>name = codeUnits ''Alias'',
           symbolFullyQualifiedName = codeUnits ''\"mod\".NS.RealClass'',
           ReferenceType.typeArguments = Some [11, 21]\<rparr>, q')"
    using convertNode_fields [OF a, of exampleOwner exampleSentinel exampleContext "[]"]
    by (auto simp: lookupIdentifier_def resolutionTarget_def aliasName_def aliasNode_def
        exampleContext_def exampleOwner_def)
  have d: "\<exists>r q'. convertNode exampleOwner exampleSentinel exampleContext [] (Some qualifiedNode) =
          Inr (r, q') \<and>
      name r = codeUnits ''NS.RealClass'' \<and>
      symbolFullyQualifiedName r = codeUnits ''\"mod\".NS.RealClass''"
    using convertNode_fields [OF b, of exampleOwner exampleSentinel exampleContext "[]"]
    by (auto simp: resolutionTarget_def qualifiedName_def exampleContext_def)
  from a b c d show ?thesis by blast
qed

text \<open>
  C8. Converting one node twice with one context, the second time in the state the first
  conversion left, gives two results with the same name and the same resolution target.
\<close>

theorem convertNode_twice:
  assumes "typeName n = Some tn"
  shows "\<exists>r1 q1 r2 q2.
     convertNode owner sentinel context q (Some n) = Inr (r1, q1) \<and>
     convertNode owner sentinel context q1 (Some n) = Inr (r2, q2) \<and>
     name r1 = name r2 \<and> symbolFullyQualifiedName r1 = symbolFullyQualifiedName r2"
  by (simp add: convertNode_named [OF assms] Let_def split: option.splits)

theorem convertNode_twice_witness:
  "typeName aliasNode = Some aliasName \<and>
   (\<exists>r1 q1 r2 q2.
     convertNode exampleOwner exampleSentinel exampleContext [] (Some aliasNode) = Inr (r1, q1) \<and>
     convertNode exampleOwner exampleSentinel exampleContext q1 (Some aliasNode) = Inr (r2, q2) \<and>
     name r1 = name r2 \<and> symbolFullyQualifiedName r1 = symbolFullyQualifiedName r2)"
proof -
  have a: "typeName aliasNode = Some aliasName" by (simp add: aliasNode_def)
  from a convertNode_twice [OF a, of exampleOwner exampleSentinel exampleContext "[]"]
  show ?thesis by blast
qed

text \<open>
  C9. The conversion does not depend on the resolved type: called with the same owner,
  context, state and node and with any two types, it returns the same result and the same
  final state.
\<close>

theorem convertNode_ignores_type:
  "convertNode_call owner sentinel context q node type1 =
   convertNode_call owner sentinel context q node type2"
  by (simp add: convertNode_call_def)

text \<open>
  C10. \<open>supportsNode\<close> leaves the state of the context as it was, for every node and type.
  A conversion that finds no target symbol registers nothing either: it returns the state
  it was given when the node has no type arguments, and otherwise the state in which
  \<open>convertTypes\<close> of the owner, started in the given state, ends.
\<close>

theorem supportsNode_frame:
  "snd (supportsNode context q node type) = q \<and>
   (\<forall>n tn. node = Some n \<longrightarrow> typeName n = Some tn \<longrightarrow>
      resolveAliasedSymbol context (getSymbolAtLocation context (lookupIdentifier tn)) = None \<longrightarrow>
      (\<exists>r. convertNode owner sentinel context q node =
           Inr (r, case TypeReferenceNode.typeArguments n of
                     None \<Rightarrow> q
                   | Some args \<Rightarrow> snd (convertTypes owner q args))))"
  by (auto simp: supportsNode_def convertNode_named Let_def split: option.splits)

theorem supportsNode_frame_witness:
  "snd (supportsNode exampleContext [(codeUnits ''X'', 7)] (Some aliasNode) (Some realClassType)) =
     [(codeUnits ''X'', 7)] \<and>
   typeName ambientNode = Some ambientName \<and>
   resolveAliasedSymbol exampleContext
     (getSymbolAtLocation exampleContext (lookupIdentifier ambientName)) = None \<and>
   (\<exists>r. convertNode exampleOwner exampleSentinel exampleContext [(codeUnits ''X'', 7)]
          (Some ambientNode) = Inr (r, [(codeUnits ''X'', 7)]))"
proof -
  have a: "typeName ambientNode = Some ambientName" by (simp add: ambientNode_def)
  have b: "resolveAliasedSymbol exampleContext
     (getSymbolAtLocation exampleContext (lookupIdentifier ambientName)) = None"
    by (simp add: exampleContext_def lookupIdentifier_def ambientName_def)
  have c: "TypeReferenceNode.typeArguments ambientNode = None" by (simp add: ambientNode_def)
  note f = supportsNode_frame [of exampleContext "[(codeUnits ''X'', 7)]" _ _ exampleOwner
      exampleSentinel]
  have "snd (supportsNode exampleContext [(codeUnits ''X'', 7)] (Some aliasNode)
      (Some realClassType)) = [(codeUnits ''X'', 7)]"
    using f [of "Some aliasNode" "Some realClassType"] by blast
  moreover have "\<exists>r. convertNode exampleOwner exampleSentinel exampleContext
      [(codeUnits ''X'', 7)] (Some ambientNode) = Inr (r, [(codeUnits ''X'', 7)])"
    using f [of "Some ambientNode" "Some realClassType"] a b c by simp
  ultimately show ?thesis using a b by blast
qed

end
